theory Spec2Isabelle
  imports Complex_Main
begin

section \<open>GasPredictor: the feed-forward network\<close>

text \<open>
  JavaScript numbers are read as reals. The one place of the predictor where a finite
  window leaves the reals is the division by the window mean in \<open>trainModel\<close>; there the
  model writes out what IEEE arithmetic gives (an infinity that the clamp absorbs, or NaN).
\<close>

record SimpleNeuralNetwork =
  weightsInputHidden :: "real list list"
  weightsHiddenOutput :: "real list list"
  biasHidden :: "real list"
  biasOutput :: "real list"
  inputSize :: nat
  hiddenSize :: nat
  outputSize :: nat

definition learningRate :: real where
  "learningRate = 0.1"

text \<open>The constructor draws every parameter as \<open>Math.random() * 2 - 1\<close>; \<open>random k\<close> is the
  k-th draw, in the order of the source: input-hidden weights row by row, hidden-output
  weights, hidden biases, output biases.\<close>

definition new_SimpleNeuralNetwork :: "nat \<Rightarrow> nat \<Rightarrow> nat \<Rightarrow> (nat \<Rightarrow> real) \<Rightarrow> SimpleNeuralNetwork" where
  "new_SimpleNeuralNetwork inputSz hiddenSz outputSz random =
     \<lparr> weightsInputHidden =
         map (\<lambda>i. map (\<lambda>j. random (i * hiddenSz + j) * 2 - 1) [0..<hiddenSz]) [0..<inputSz],
       weightsHiddenOutput =
         map (\<lambda>j. map (\<lambda>k. random (inputSz * hiddenSz + j * outputSz + k) * 2 - 1) [0..<outputSz])
           [0..<hiddenSz],
       biasHidden =
         map (\<lambda>j. random (inputSz * hiddenSz + hiddenSz * outputSz + j) * 2 - 1) [0..<hiddenSz],
       biasOutput =
         map (\<lambda>k. random (inputSz * hiddenSz + hiddenSz * outputSz + hiddenSz + k) * 2 - 1)
           [0..<outputSz],
       inputSize = inputSz, hiddenSize = hiddenSz, outputSize = outputSz \<rparr>"

definition sigmoid :: "real \<Rightarrow> real" where
  "sigmoid x = 1 / (1 + exp (- x))"

definition sigmoidDerivative :: "real \<Rightarrow> real" where
  "sigmoidDerivative x = x * (1 - x)"

text \<open>The two forward loops, shared by \<open>train\<close> and \<open>run\<close> in the source text.\<close>

definition hiddenOutputs :: "SimpleNeuralNetwork \<Rightarrow> real list \<Rightarrow> real list" where
  "hiddenOutputs n inputs =
     map (\<lambda>j. sigmoid (foldl (\<lambda>sum i. sum + inputs ! i * (weightsInputHidden n ! i ! j))
                          (biasHidden n ! j) [0..<inputSize n]))
       [0..<hiddenSize n]"

definition finalOutputs :: "SimpleNeuralNetwork \<Rightarrow> real list \<Rightarrow> real list" where
  "finalOutputs n hidden =
     map (\<lambda>k. sigmoid (foldl (\<lambda>sum j. sum + hidden ! j * (weightsHiddenOutput n ! j ! k))
                          (biasOutput n ! k) [0..<hiddenSize n]))
       [0..<outputSize n]"

definition train :: "real list \<Rightarrow> real list \<Rightarrow> SimpleNeuralNetwork \<Rightarrow> SimpleNeuralNetwork" where
  "train inputs expectedOutput n =
     (let hidden = hiddenOutputs n inputs;
          final = finalOutputs n hidden;
          outputErrors =
            map (\<lambda>k. (expectedOutput ! k - final ! k) * sigmoidDerivative (final ! k))
              [0..<outputSize n];
          hiddenErrors =
            map (\<lambda>j. foldl (\<lambda>error k. error + outputErrors ! k * (weightsHiddenOutput n ! j ! k))
                        0 [0..<outputSize n]
                      * sigmoidDerivative (hidden ! j))
              [0..<hiddenSize n]
      in n \<lparr> weightsHiddenOutput :=
               map (\<lambda>j. map (\<lambda>k. weightsHiddenOutput n ! j ! k
                                   + learningRate * outputErrors ! k * hidden ! j)
                          [0..<outputSize n])
                 [0..<hiddenSize n],
             biasOutput :=
               map (\<lambda>k. biasOutput n ! k + learningRate * outputErrors ! k) [0..<outputSize n],
             weightsInputHidden :=
               map (\<lambda>i. map (\<lambda>j. weightsInputHidden n ! i ! j
                                   + learningRate * hiddenErrors ! j * inputs ! i)
                          [0..<hiddenSize n])
                 [0..<inputSize n],
             biasHidden :=
               map (\<lambda>j. biasHidden n ! j + learningRate * hiddenErrors ! j) [0..<hiddenSize n] \<rparr>)"

definition run :: "SimpleNeuralNetwork \<Rightarrow> real list \<Rightarrow> real list" where
  "run n inputs = finalOutputs n (hiddenOutputs n inputs)"


section \<open>GasPredictor: AIGasPredictor\<close>

text \<open>
  \<open>net = None\<close> stands for a network all of whose parameters are NaN: one \<open>train\<close> call
  with a NaN target makes every output error, hidden error and hence every weight and bias
  NaN (NaN times a zero input is NaN too), and no later call repairs that.
\<close>

record AIGasPredictor =
  net :: "SimpleNeuralNetwork option"
  isTrained :: bool
  historicalFees :: "real list"

definition windowSize :: nat where
  "windowSize = 10"

definition new_AIGasPredictor :: "(nat \<Rightarrow> real) \<Rightarrow> AIGasPredictor" where
  "new_AIGasPredictor random =
     \<lparr> net = Some (new_SimpleNeuralNetwork 10 5 1 random), isTrained = False, historicalFees = [] \<rparr>"

text \<open>\<open>parseFloat(ethers.formatUnits(baseFeeWei, "gwei"))\<close>: the wei amount scaled by 10^9.\<close>

definition gweiOf :: "int \<Rightarrow> real" where
  "gweiOf baseFeeWei = real_of_int baseFeeWei / 10 ^ 9"

text \<open>\<open>Math.max(...fees)\<close> and \<open>Math.min(...fees)\<close>; both are only called on a full window
  (with no argument JavaScript gives an infinity, which the reals do not have).\<close>

definition maxFee :: "real list \<Rightarrow> real" where
  "maxFee fees = foldl max (hd fees) (tl fees)"

definition minFee :: "real list \<Rightarrow> real" where
  "minFee fees = foldl min (hd fees) (tl fees)"

text \<open>\<open>maxFee - minFee || 1\<close>\<close>

definition rangeOf :: "real list \<Rightarrow> real" where
  "rangeOf fees = (if maxFee fees - minFee fees = 0 then 1 else maxFee fees - minFee fees)"

definition normalizedHistory :: "real list \<Rightarrow> real list" where
  "normalizedHistory fees = map (\<lambda>f. (f - minFee fees) / rangeOf fees) fees"

definition avg :: "real list \<Rightarrow> real" where
  "avg fees = foldl (\<lambda>a b. a + b) 0 fees / real windowSize"

definition currentFee :: "real list \<Rightarrow> real" where
  "currentFee fees = fees ! (windowSize - 1)"

text \<open>
  The target label of \<open>trainModel\<close>; \<open>None\<close> is NaN. With a zero mean the ratio is a
  quotient by zero: a positive numerator gives \<open>+Infinity\<close>, which \<open>Math.min\<close> and \<open>Math.max\<close>
  clamp, and \<open>0 / 0\<close> is NaN, which \<open>Math.max(0.01, NaN)\<close> returns unchanged.
\<close>

definition targetScore :: "real list \<Rightarrow> real option" where
  "targetScore fees =
     (if currentFee fees < avg fees then
        (if avg fees = 0 then Some 0.99
         else Some (min 0.99 (0.5 + ((avg fees - currentFee fees) / avg fees) * 2)))
      else
        (if avg fees = 0 then (if currentFee fees = 0 then None else Some 0.01)
         else Some (max 0.01 (0.5 - ((currentFee fees - avg fees) / avg fees) * 2))))"

definition trainModel :: "AIGasPredictor \<Rightarrow> AIGasPredictor" where
  "trainModel p =
     p \<lparr> net := (case targetScore (historicalFees p) of
                   None \<Rightarrow> None
                 | Some t \<Rightarrow>
                     map_option (train (normalizedHistory (historicalFees p)) [t] ^^ 200) (net p)),
         isTrained := True \<rparr>"

definition addBlockDataAndTrain :: "int \<Rightarrow> AIGasPredictor \<Rightarrow> AIGasPredictor" where
  "addBlockDataAndTrain baseFeeWei p =
     (let pushed = historicalFees p @ [gweiOf baseFeeWei];
          fees = (if length pushed > windowSize then tl pushed else pushed);
          p1 = p \<lparr> historicalFees := fees \<rparr>
      in if length fees = windowSize then trainModel p1 else p1)"

text \<open>\<open>prediction[0] || 0\<close> turns a zero or NaN prediction into 0.\<close>

definition shouldExecuteBatch :: "int \<Rightarrow> AIGasPredictor \<Rightarrow> bool \<times> real" where
  "shouldExecuteBatch currentFeeWei p =
     (if \<not> isTrained p \<or> length (historicalFees p) < windowSize then (False, 0)
      else
        let normalizedInput = normalizedHistory (historicalFees p);
            score = (case net p of
                       None \<Rightarrow> 0
                     | Some n \<Rightarrow>
                         (let prediction = run n normalizedInput
                          in if prediction ! 0 = 0 then 0 else prediction ! 0))
        in (score > 0.7, score))"

definition isReady :: "AIGasPredictor \<Rightarrow> bool" where
  "isReady p = isTrained p"

text \<open>Absorbing a sequence of fee samples, oldest first.\<close>

definition absorb :: "int list \<Rightarrow> AIGasPredictor \<Rightarrow> AIGasPredictor" where
  "absorb samples p = foldl (\<lambda>q baseFeeWei. addBlockDataAndTrain baseFeeWei q) p samples"


section \<open>GasPredictor: the quantities of one training step\<close>







section \<open>relayer: data\<close>

record Intent =
  sender :: string
  receiver :: string
  amount :: int
  intentIndex :: int
  receivedAt :: int
  txHash :: string
  blockNumber :: int

datatype BatchStatus = IDLE | POOLING | EXECUTING | EXECUTED | ERROR

text \<open>
  Arrays and object literals live in a store and are held by reference, as in the
  source: \<open>pooledIntents\<close>, \<open>lastBatch\<close> and \<open>aiState\<close> of the state object are
  references, and so is the relayer's \<open>intentPool\<close>. Intents are never written after
  their creation and are kept as values.
\<close>

type_synonym ref = nat

record LastBatch =
  lastBatch_txHash :: "string option"
  batchSize :: nat
  totalValue :: string
  executedAt :: "int option"

record AiState =
  aiState_isReady :: bool
  aiState_currentGasGwei :: string
  confidenceScore :: real
  threshold :: real

record RelayerState =
  status :: BatchStatus
  pooledIntents :: ref
  batchSizeThreshold :: int
  lastBatch :: ref
  aiState :: ref
  totalBatchesExecuted :: nat
  totalIntentsProcessed :: nat
  uptime :: int
  state_startedAt :: int

text \<open>
  The relayer object, the store it allocates in, and what the event loop holds for it:
  the batch of every \<open>executeBatch\<close> call suspended at an \<open>await\<close>, and the due times of
  the timeouts it has set. \<open>config_batchSizeThreshold\<close> is the module constant
  \<open>config.batchSizeThreshold\<close>.
\<close>

record AegisRelayer =
  config_batchSizeThreshold :: int
  gasAI :: AIGasPredictor
  intentPool :: ref
  isExecuting :: bool
  startedAt :: int
  currentGasGwei :: string
  currentAiScore :: real
  state :: RelayerState
  arrays :: "ref \<Rightarrow> Intent list"
  lastBatchObjs :: "ref \<Rightarrow> LastBatch"
  aiStateObjs :: "ref \<Rightarrow> AiState"
  nextRef :: ref
  suspended :: "Intent list list"
  timers :: "int list"

text \<open>The two library renderings the relayer stores as strings: \<open>ethers.formatEther\<close> of a
  wei amount, and \<open>toFixed(2)\<close> of a gwei reading.\<close>

record Lib =
  formatEther :: "int \<Rightarrow> string"
  toFixed2 :: "real \<Rightarrow> string"

definition new_AegisRelayer :: "int \<Rightarrow> int \<Rightarrow> (nat \<Rightarrow> real) \<Rightarrow> AegisRelayer" where
  "new_AegisRelayer batchThreshold now random =
     \<lparr> config_batchSizeThreshold = batchThreshold,
       gasAI = new_AIGasPredictor random,
       intentPool = 0,
       isExecuting = False,
       startedAt = now,
       currentGasGwei = ''0.0'',
       currentAiScore = 0,
       state =
         \<lparr> status = IDLE, pooledIntents = 1, batchSizeThreshold = batchThreshold,
           lastBatch = 2, aiState = 3, totalBatchesExecuted = 0, totalIntentsProcessed = 0,
           uptime = 0, state_startedAt = now \<rparr>,
       arrays = (\<lambda>_. []),
       lastBatchObjs =
         (\<lambda>_. \<lparr> lastBatch_txHash = None, batchSize = 0, totalValue = ''0'', executedAt = None \<rparr>),
       aiStateObjs =
         (\<lambda>_. \<lparr> aiState_isReady = False, aiState_currentGasGwei = ''0.0'', confidenceScore = 0,
                threshold = 0.7 \<rparr>),
       nextRef = 4,
       suspended = [],
       timers = [] \<rparr>"

text \<open>The contents of the live pool array.\<close>

definition pool :: "AegisRelayer \<Rightarrow> Intent list" where
  "pool r = arrays r (intentPool r)"


section \<open>relayer: operations\<close>

text \<open>\<open>syncState\<close> allocates a copy of the pool array and a new \<open>aiState\<close> object.\<close>

definition syncState :: "int \<Rightarrow> AegisRelayer \<Rightarrow> AegisRelayer" where
  "syncState now r =
     (let copy = nextRef r;
          ai = Suc (nextRef r);
          st = (state r) \<lparr> pooledIntents := copy, aiState := ai,
                            uptime := (now - startedAt r) div 1000 \<rparr>
      in r \<lparr> arrays := (arrays r) (copy := pool r),
             aiStateObjs := (aiStateObjs r)
               (ai := \<lparr> aiState_isReady = isReady (gasAI r),
                        aiState_currentGasGwei = currentGasGwei r,
                        confidenceScore = currentAiScore r,
                        threshold = 0.7 \<rparr>),
             nextRef := Suc (Suc (nextRef r)),
             state :=
               (if status st \<noteq> EXECUTING \<and> status st \<noteq> ERROR
                then st \<lparr> status := (if length (pool r) > 0 then POOLING else IDLE) \<rparr>
                else st) \<rparr>)"

text \<open>
  \<open>executeBatch\<close> up to its first \<open>await\<close>: the guard, the flag, the drain by
  \<open>splice(0, length)\<close> and \<open>syncState\<close>. The call then waits for the ledger with its
  batch; \<open>executeBatch_resume\<close> is the rest.
\<close>

definition executeBatch :: "int \<Rightarrow> AegisRelayer \<Rightarrow> AegisRelayer" where
  "executeBatch now r =
     (if isExecuting r \<or> length (pool r) = 0 then r
      else
        let batch = pool r;
            r1 = r \<lparr> isExecuting := True,
                     state := (state r) \<lparr> status := EXECUTING \<rparr>,
                     arrays := (arrays r) (intentPool r := []) \<rparr>;
            r2 = syncState now r1
        in r2 \<lparr> suspended := suspended r2 @ [batch] \<rparr>)"

text \<open>What the awaited ledger calls of one attempt answer, in the order they are awaited.\<close>

datatype 'a settled = Rejected | Fulfilled 'a

record Ledger =
  vaultBalance :: "int settled"
  estimateGas :: "int settled"
  sendBatch :: "string settled"
  waitConfirmation :: "unit settled"

datatype failure =
  BalanceQueryFailed | InsufficientFunds | EstimateFailed | SubmissionFailed | ConfirmationFailed

text \<open>The \<open>try\<close> block up to the confirmation: the hash of the confirmed transaction, or
  the point where it threw.\<close>

definition settle :: "Ledger \<Rightarrow> int \<Rightarrow> failure + string" where
  "settle ledger batchTotal =
     (case vaultBalance ledger of
        Rejected \<Rightarrow> Inl BalanceQueryFailed
      | Fulfilled vaultBal \<Rightarrow>
          if vaultBal < batchTotal then Inl InsufficientFunds
          else
            (case estimateGas ledger of
               Rejected \<Rightarrow> Inl EstimateFailed
             | Fulfilled gasEstimate \<Rightarrow>
                 (case sendBatch ledger of
                    Rejected \<Rightarrow> Inl SubmissionFailed
                  | Fulfilled hash \<Rightarrow>
                      (case waitConfirmation ledger of
                         Rejected \<Rightarrow> Inl ConfirmationFailed
                       | Fulfilled _ \<Rightarrow> Inr hash))))"

definition sumAmounts :: "Intent list \<Rightarrow> int" where
  "sumAmounts batch = foldl (\<lambda>acc v. acc + v) 0 (map amount batch)"

definition executeBatch_resume ::
    "Lib \<Rightarrow> int \<Rightarrow> Ledger \<Rightarrow> Intent list \<Rightarrow> AegisRelayer \<Rightarrow> AegisRelayer" where
  "executeBatch_resume lib now ledger batch r =
     (let r1 =
            (case settle ledger (sumAmounts batch) of
               Inr hash \<Rightarrow>
                 r \<lparr> lastBatchObjs := (lastBatchObjs r)
                       (nextRef r :=
                          \<lparr> lastBatch_txHash = Some hash, batchSize = length batch,
                            totalValue = formatEther lib (sumAmounts batch),
                            executedAt = Some now \<rparr>),
                     nextRef := Suc (nextRef r),
                     state := (state r)
                       \<lparr> lastBatch := nextRef r,
                         totalBatchesExecuted := totalBatchesExecuted (state r) + 1,
                         totalIntentsProcessed := totalIntentsProcessed (state r) + length batch,
                         status := (if length (pool r) > 0 then POOLING else IDLE) \<rparr> \<rparr>
             | Inl err \<Rightarrow>
                 r \<lparr> arrays := (arrays r) (intentPool r := batch @ pool r),
                     state := (state r) \<lparr> status := ERROR \<rparr> \<rparr>);
          r2 = syncState now (r1 \<lparr> isExecuting := False \<rparr>)
      in if length (pool r2) > 0 then r2 \<lparr> timers := timers r2 @ [now + 10000] \<rparr> else r2)"

definition handleIntent :: "int \<Rightarrow> Intent \<Rightarrow> AegisRelayer \<Rightarrow> AegisRelayer" where
  "handleIntent now intent r =
     (let r1 = syncState now (r \<lparr> arrays := (arrays r) (intentPool r := pool r @ [intent]) \<rparr>)
      in if int (length (pool r1)) \<ge> config_batchSizeThreshold r1 then executeBatch now r1
         else r1)"

text \<open>The block listener after its \<open>getBlock\<close>: \<open>None\<close> is a missing block or base fee
  (or a failed lookup); a zero base fee is falsy and skipped as well.\<close>

definition onBlock :: "Lib \<Rightarrow> int \<Rightarrow> int option \<Rightarrow> AegisRelayer \<Rightarrow> AegisRelayer" where
  "onBlock lib now baseFeePerGas r =
     (case baseFeePerGas of
        None \<Rightarrow> r
      | Some baseFee \<Rightarrow>
          if baseFee = 0 then r
          else
            let ai = addBlockDataAndTrain baseFee (gasAI r);
                (executeAI, score) = shouldExecuteBatch baseFee ai;
                r1 = r \<lparr> currentGasGwei := toFixed2 lib (gweiOf baseFee), gasAI := ai,
                         currentAiScore := score \<rparr>
            in if isReady ai \<and> executeAI \<and> length (pool r1) > 0 then executeBatch now r1
               else r1)"

definition start :: "AegisRelayer \<Rightarrow> AegisRelayer" where
  "start r = r \<lparr> state := (state r) \<lparr> status := POOLING \<rparr> \<rparr>"

text \<open>\<open>getStatus\<close> returns \<open>{ ...this.state }\<close>: a new object with the field values of the
  state object, references included.\<close>

definition getStatus :: "int \<Rightarrow> AegisRelayer \<Rightarrow> RelayerState \<times> AegisRelayer" where
  "getStatus now r = (let r1 = syncState now r in (state r1, r1))"

text \<open>The callback of the timeout set after an attempt.\<close>

definition timeout :: "AegisRelayer \<Rightarrow> AegisRelayer" where
  "timeout r = r \<lparr> isExecuting := False \<rparr>"

text \<open>
  One turn of the event loop at clock reading \<open>now\<close>: an intent event, a block event, the
  resumption of the k-th suspended \<open>executeBatch\<close> with the ledger's answers, the k-th
  timeout once it is due, or a status request.
\<close>

datatype event =
    IntentRegistered Intent
  | NewBlock "int option"
  | Resumes nat Ledger
  | TimerFires nat
  | StatusRequest

fun step :: "Lib \<Rightarrow> AegisRelayer \<Rightarrow> int \<times> event \<Rightarrow> AegisRelayer" where
  "step lib r (now, IntentRegistered intent) = handleIntent now intent r"
| "step lib r (now, NewBlock baseFeePerGas) = onBlock lib now baseFeePerGas r"
| "step lib r (now, Resumes k ledger) =
     (if k < length (suspended r)
      then executeBatch_resume lib now ledger (suspended r ! k)
             (r \<lparr> suspended := take k (suspended r) @ drop (Suc k) (suspended r) \<rparr>)
      else r)"
| "step lib r (now, TimerFires k) =
     (if k < length (timers r) \<and> timers r ! k \<le> now
      then timeout (r \<lparr> timers := take k (timers r) @ drop (Suc k) (timers r) \<rparr>)
      else r)"
| "step lib r (now, StatusRequest) = snd (getStatus now r)"

definition run_events :: "Lib \<Rightarrow> (int \<times> event) list \<Rightarrow> AegisRelayer \<Rightarrow> AegisRelayer" where
  "run_events lib evs r = foldl (step lib) r evs"

text \<open>What a caller reads through a snapshot it holds, in the store of a later moment.\<close>

record SnapshotContents =
  seen_status :: BatchStatus
  seen_pooledIntents :: "Intent list"
  seen_batchSizeThreshold :: int
  seen_lastBatch :: LastBatch
  seen_aiState :: AiState
  seen_totalBatchesExecuted :: nat
  seen_totalIntentsProcessed :: nat
  seen_uptime :: int
  seen_startedAt :: int

definition contents :: "AegisRelayer \<Rightarrow> RelayerState \<Rightarrow> SnapshotContents" where
  "contents r snap =
     \<lparr> seen_status = status snap,
       seen_pooledIntents = arrays r (pooledIntents snap),
       seen_batchSizeThreshold = batchSizeThreshold snap,
       seen_lastBatch = lastBatchObjs r (lastBatch snap),
       seen_aiState = aiStateObjs r (aiState snap),
       seen_totalBatchesExecuted = totalBatchesExecuted snap,
       seen_totalIntentsProcessed = totalIntentsProcessed snap,
       seen_uptime = uptime snap,
       seen_startedAt = state_startedAt snap \<rparr>"

text \<open>Every reference the relayer holds has been allocated.\<close>

definition allocated :: "AegisRelayer \<Rightarrow> bool" where
  "allocated r \<longleftrightarrow> intentPool r < nextRef r \<and> lastBatch (state r) < nextRef r"


text \<open>
  What a run of the relayer may do to the store: references are only ever added, the pool
  reference stays, and of the objects allocated before, only the live pool array is written.
\<close>

definition extends :: "AegisRelayer \<Rightarrow> AegisRelayer \<Rightarrow> bool" where
  "extends r r' \<longleftrightarrow>
     nextRef r \<le> nextRef r' \<and> intentPool r' = intentPool r \<and> allocated r'
     \<and> (\<forall>a. a < nextRef r \<and> a \<noteq> intentPool r \<longrightarrow> arrays r' a = arrays r a)
     \<and> (\<forall>a. a < nextRef r \<longrightarrow> lastBatchObjs r' a = lastBatchObjs r a)
     \<and> (\<forall>a. a < nextRef r \<longrightarrow> aiStateObjs r' a = aiStateObjs r a)"


text \<open>
  The events that may arrive while one attempt waits for the ledger and it is the only one
  in flight: intents, blocks and status requests. \<open>enqueued\<close> lists the intents among
  a run of events, in order of arrival.
\<close>

fun duringAttempt :: "event \<Rightarrow> bool" where
  "duringAttempt (IntentRegistered intent) = True"
| "duringAttempt (NewBlock baseFeePerGas) = True"
| "duringAttempt StatusRequest = True"
| "duringAttempt (Resumes k ledger) = False"
| "duringAttempt (TimerFires k) = False"

fun enqueued :: "(int \<times> event) list \<Rightarrow> Intent list" where
  "enqueued [] = []"
| "enqueued ((now, IntentRegistered intent) # evs) = intent # enqueued evs"
| "enqueued (ev # evs) = enqueued evs"


section \<open>Example inputs\<close>

definition intentA :: Intent where
  "intentA = \<lparr> sender = ''0xA1'', receiver = ''0xB1'', amount = 1, intentIndex = 0,
               receivedAt = 1, txHash = ''0x01'', blockNumber = 7 \<rparr>"

definition intentB :: Intent where
  "intentB = \<lparr> sender = ''0xA2'', receiver = ''0xB2'', amount = 2, intentIndex = 1,
               receivedAt = 2, txHash = ''0x02'', blockNumber = 8 \<rparr>"

definition intentC :: Intent where
  "intentC = \<lparr> sender = ''0xA3'', receiver = ''0xB3'', amount = 3, intentIndex = 2,
               receivedAt = 3, txHash = ''0x03'', blockNumber = 9 \<rparr>"

text \<open>Every \<open>Math.random()\<close> draw is 0.5, so every initial parameter is 0.\<close>

definition half :: "nat \<Rightarrow> real" where
  "half k = 1 / 2"

text \<open>Stand-ins for the two renderings.\<close>

definition plainLib :: Lib where
  "plainLib = \<lparr> formatEther = (\<lambda>wei. ''wei''), toFixed2 = (\<lambda>gwei. ''gwei'') \<rparr>"

text \<open>A rendering that writes a wei amount as that many strokes, so that different totals
  are different strings.\<close>

definition tallyLib :: Lib where
  "tallyLib = \<lparr> formatEther = (\<lambda>wei. replicate (nat wei) (CHR ''I'')),
                toFixed2 = (\<lambda>gwei. ''gwei'') \<rparr>"

text \<open>A ledger whose vault is empty, and one that confirms the batch.\<close>

definition emptyVault :: Ledger where
  "emptyVault = \<lparr> vaultBalance = Fulfilled 0, estimateGas = Fulfilled 21000,
                  sendBatch = Fulfilled ''0xT1'', waitConfirmation = Fulfilled () \<rparr>"

definition confirming :: Ledger where
  "confirming = \<lparr> vaultBalance = Fulfilled 100, estimateGas = Fulfilled 21000,
                  sendBatch = Fulfilled ''0xT2'', waitConfirmation = Fulfilled () \<rparr>"

text \<open>A ledger that accepts the batch transaction and then fails to confirm it.\<close>

definition unconfirmed :: Ledger where
  "unconfirmed = \<lparr> vaultBalance = Fulfilled 100, estimateGas = Fulfilled 21000,
                   sendBatch = Fulfilled ''0xT3'', waitConfirmation = Rejected \<rparr>"


text \<open>
  A fee spike. \<open>fallingFees\<close> (wei) opens at 500 gwei and then falls by one wei per block
  from just above 1 gwei; \<open>risingFees\<close> is the same window reversed. \<open>spikeRandom\<close> is a
  sequence of \<open>Math.random()\<close> draws in [0, 1): it makes the weights from the oldest sample
  -0.999, those from the latest sample and all hidden-output weights and biases 0.999, and
  every other weight 0.
\<close>

definition spikeRandom :: "nat \<Rightarrow> real" where
  "spikeRandom k = (if k < 5 then 1 / 2000 else if k < 45 then 1 / 2 else 1999 / 2000)"





section \<open>Properties of the predictor\<close>

lemma trainModel_fees [simp]: "historicalFees (trainModel p) = historicalFees p"
  by (simp add: trainModel_def)

lemma trainModel_isTrained [simp]: "isTrained (trainModel p)"
  by (simp add: trainModel_def)

lemma addBlock_fees:
  "historicalFees (addBlockDataAndTrain x p) =
     (if length (historicalFees p) + 1 > windowSize
      then tl (historicalFees p @ [gweiOf x]) else historicalFees p @ [gweiOf x])"
  by (simp add: addBlockDataAndTrain_def Let_def)

lemma absorb_snoc: "absorb (xs @ [x]) p = addBlockDataAndTrain x (absorb xs p)"
  by (simp add: absorb_def)

lemma absorb_fees:
  "historicalFees (absorb xs (new_AIGasPredictor random)) =
     map gweiOf (drop (length xs - windowSize) xs)"
proof (induction xs rule: rev_induct)
  case Nil
  show ?case by (simp add: absorb_def new_AIGasPredictor_def)
next
  case (snoc x xs)
  show ?case
  proof (cases "length xs < windowSize")
    case True
    then show ?thesis
      using snoc by (simp add: absorb_snoc addBlock_fees)
  next
    case False
    define k where "k = length xs - windowSize"
    define ws where "ws = drop k xs"
    have len: "length ws = windowSize" and k: "Suc k \<le> length xs"
      using False by (simp_all add: ws_def k_def windowSize_def)
    then have ne: "ws \<noteq> []"
      by (auto simp: windowSize_def)
    have suc: "Suc (length xs) - windowSize = Suc k"
      using False by (simp add: k_def)
    have "historicalFees (absorb (xs @ [x]) (new_AIGasPredictor random)) =
            tl (map gweiOf ws @ [gweiOf x])"
      using snoc len by (simp add: absorb_snoc addBlock_fees ws_def k_def)
    also have "\<dots> = map gweiOf (tl ws) @ [gweiOf x]"
      using ne by (simp add: map_tl)
    also have "tl ws = drop (Suc k) xs"
      by (simp add: ws_def drop_Suc drop_tl)
    finally show ?thesis
      using k by (simp add: suc)
  qed
qed

lemma addBlock_isTrained:
  "isTrained (addBlockDataAndTrain x p) =
     (length (historicalFees (addBlockDataAndTrain x p)) = windowSize \<or> isTrained p)"
  by (simp add: addBlockDataAndTrain_def Let_def)

lemma addBlock_net:
  "length (historicalFees (addBlockDataAndTrain x p)) \<noteq> windowSize \<Longrightarrow>
     net (addBlockDataAndTrain x p) = net p"
  by (simp add: addBlockDataAndTrain_def Let_def split: if_splits)

lemma absorb_fees_length:
  "length (historicalFees (absorb xs (new_AIGasPredictor random))) = min (length xs) windowSize"
  by (simp add: absorb_fees)

lemma absorb_isTrained:
  "isTrained (absorb xs (new_AIGasPredictor random)) = (windowSize \<le> length xs)"
proof (induction xs rule: rev_induct)
  case Nil
  show ?case by (simp add: absorb_def new_AIGasPredictor_def windowSize_def)
next
  case (snoc x xs)
  have "isTrained (absorb (xs @ [x]) (new_AIGasPredictor random)) =
          (min (Suc (length xs)) windowSize = windowSize \<or> windowSize \<le> length xs)"
    using absorb_fees_length [of "xs @ [x]" random] snoc
      addBlock_isTrained [of x "absorb xs (new_AIGasPredictor random)"]
    by (simp add: absorb_snoc)
  then show ?case by auto
qed

lemma absorb_net_cold:
  "length xs < windowSize \<Longrightarrow>
     net (absorb xs (new_AIGasPredictor random)) = net (new_AIGasPredictor random)"
proof (induction xs rule: rev_induct)
  case Nil
  show ?case by (simp add: absorb_def)
next
  case (snoc x xs)
  have "length (historicalFees (absorb (xs @ [x]) (new_AIGasPredictor random))) \<noteq> windowSize"
    using snoc.prems absorb_fees_length [of "xs @ [x]" random] by simp
  then have "net (absorb (xs @ [x]) (new_AIGasPredictor random)) =
               net (absorb xs (new_AIGasPredictor random))"
    by (simp add: absorb_snoc addBlock_net)
  then show ?case using snoc by simp
qed

lemma absorb_tenth:
  assumes "length xs = windowSize - 1"
  shows "absorb (xs @ [x]) (new_AIGasPredictor random) =
           trainModel (absorb xs (new_AIGasPredictor random)
                         \<lparr> historicalFees := map gweiOf (xs @ [x]) \<rparr>)"
proof -
  have "historicalFees (absorb xs (new_AIGasPredictor random)) = map gweiOf xs"
    using assms by (simp add: absorb_fees)
  then show ?thesis
    using assms by (simp add: absorb_snoc addBlockDataAndTrain_def Let_def windowSize_def)
qed


lemma absorb_tenth_net:
  assumes "length xs = windowSize - 1"
  shows "net (absorb (xs @ [x]) (new_AIGasPredictor random)) =
           (case targetScore (map gweiOf (xs @ [x])) of
              None \<Rightarrow> None
            | Some t \<Rightarrow>
                Some ((train (normalizedHistory (map gweiOf (xs @ [x]))) [t] ^^ 200)
                        (new_SimpleNeuralNetwork 10 5 1 random)))"
proof -
  have "length xs < windowSize"
    using assms by (simp add: windowSize_def)
  then have "net (absorb xs (new_AIGasPredictor random)) =
               Some (new_SimpleNeuralNetwork 10 5 1 random)"
    using absorb_net_cold [of xs random] by (simp add: new_AIGasPredictor_def)
  then show ?thesis
    unfolding absorb_tenth [OF assms]
    by (simp add: trainModel_def split: option.split)
qed

text \<open>
  C5. A fresh predictor that has absorbed fewer than 10 fee samples scores (false, 0)
  whatever fee it is asked about, and its network is still the initial one (no training
  pass has run). It is ready exactly when at least 10 samples have been absorbed, so the
  COLD to READY transition happens at the tenth sample. Absorbing that tenth sample is
  one call of \<open>trainModel\<close> on the window of all ten, and the network of the predictor that
  has just become ready is the initial network after 200 \<open>train\<close> calls on the normalised
  window with the window's label as the expected output (every parameter NaN when the
  label is NaN).
\<close>

theorem predictor_cold_until_window_full:
  "(length xs < windowSize \<longrightarrow>
      shouldExecuteBatch fee (absorb xs (new_AIGasPredictor random)) = (False, 0)
      \<and> net (absorb xs (new_AIGasPredictor random)) = net (new_AIGasPredictor random))
   \<and> (isReady (absorb xs (new_AIGasPredictor random)) \<longleftrightarrow> windowSize \<le> length xs)
   \<and> (length xs = windowSize - 1 \<longrightarrow>
        absorb (xs @ [x]) (new_AIGasPredictor random) =
          trainModel (absorb xs (new_AIGasPredictor random)
                        \<lparr> historicalFees := map gweiOf (xs @ [x]) \<rparr>)
        \<and> net (absorb (xs @ [x]) (new_AIGasPredictor random)) =
            (case targetScore (map gweiOf (xs @ [x])) of
               None \<Rightarrow> None
             | Some t \<Rightarrow>
                 Some ((train (normalizedHistory (map gweiOf (xs @ [x]))) [t] ^^ 200)
                         (new_SimpleNeuralNetwork 10 5 1 random))))"
proof (intro conjI impI)
  assume "length xs < windowSize"
  then show "shouldExecuteBatch fee (absorb xs (new_AIGasPredictor random)) = (False, 0)"
    by (simp add: shouldExecuteBatch_def absorb_isTrained)
next
  assume "length xs < windowSize"
  then show "net (absorb xs (new_AIGasPredictor random)) = net (new_AIGasPredictor random)"
    by (rule absorb_net_cold)
next
  show "isReady (absorb xs (new_AIGasPredictor random)) \<longleftrightarrow> windowSize \<le> length xs"
    by (simp add: isReady_def absorb_isTrained)
next
  assume "length xs = windowSize - 1"
  then show "absorb (xs @ [x]) (new_AIGasPredictor random) =
               trainModel (absorb xs (new_AIGasPredictor random)
                             \<lparr> historicalFees := map gweiOf (xs @ [x]) \<rparr>)"
    by (rule absorb_tenth)
next
  assume "length xs = windowSize - 1"
  then show "net (absorb (xs @ [x]) (new_AIGasPredictor random)) =
            (case targetScore (map gweiOf (xs @ [x])) of
               None \<Rightarrow> None
             | Some t \<Rightarrow>
                 Some ((train (normalizedHistory (map gweiOf (xs @ [x]))) [t] ^^ 200)
                         (new_SimpleNeuralNetwork 10 5 1 random)))"
    by (rule absorb_tenth_net)
qed

text \<open>Three samples leave the predictor cold; the samples 1 to 10 wei make it ready, with
  the initial network trained 200 times toward the label 0.01 of that rising window.\<close>

theorem predictor_cold_until_window_full_witness:
  "length [3, 5, 4 :: int] < windowSize
   \<and> shouldExecuteBatch 7 (absorb [3, 5, 4] (new_AIGasPredictor half)) = (False, 0)
   \<and> net (absorb [3, 5, 4] (new_AIGasPredictor half)) =
       Some (new_SimpleNeuralNetwork 10 5 1 half)
   \<and> \<not> isReady (absorb [3, 5, 4] (new_AIGasPredictor half))
   \<and> length [1, 2, 3, 4, 5, 6, 7, 8, 9 :: int] = windowSize - 1
   \<and> isReady (absorb [1, 2, 3, 4, 5, 6, 7, 8, 9, 10] (new_AIGasPredictor half))
   \<and> net (absorb [1, 2, 3, 4, 5, 6, 7, 8, 9, 10] (new_AIGasPredictor half)) =
       Some ((train [0, 1 / 9, 2 / 9, 1 / 3, 4 / 9, 5 / 9, 2 / 3, 7 / 9, 8 / 9, 1] [1 / 100] ^^ 200)
               (new_SimpleNeuralNetwork 10 5 1 half))"
proof -
  have t: "targetScore (map gweiOf ([1, 2, 3, 4, 5, 6, 7, 8, 9] @ [10])) = Some (1 / 100)"
    by (simp add: targetScore_def gweiOf_def avg_def currentFee_def windowSize_def)
  have n: "normalizedHistory (map gweiOf ([1, 2, 3, 4, 5, 6, 7, 8, 9] @ [10])) =
             [0, 1 / 9, 2 / 9, 1 / 3, 4 / 9, 5 / 9, 2 / 3, 7 / 9, 8 / 9, 1]"
    by (simp add: normalizedHistory_def gweiOf_def maxFee_def minFee_def rangeOf_def)
  have len: "length [1, 2, 3, 4, 5, 6, 7, 8, 9 :: int] = windowSize - 1"
    by (simp add: windowSize_def)
  have short: "length [3, 5, 4 :: int] < windowSize"
    by (simp add: windowSize_def)
  from predictor_cold_until_window_full [of "[3, 5, 4]" 7 half 0] short
  have cold: "shouldExecuteBatch 7 (absorb [3, 5, 4] (new_AIGasPredictor half)) = (False, 0)
      \<and> net (absorb [3, 5, 4] (new_AIGasPredictor half)) = net (new_AIGasPredictor half)
      \<and> \<not> isReady (absorb [3, 5, 4] (new_AIGasPredictor half))"
    by auto
  from predictor_cold_until_window_full [of "[1, 2, 3, 4, 5, 6, 7, 8, 9]" 7 half 10] len
  have "net (absorb ([1, 2, 3, 4, 5, 6, 7, 8, 9] @ [10]) (new_AIGasPredictor half)) =
            (case targetScore (map gweiOf ([1, 2, 3, 4, 5, 6, 7, 8, 9] @ [10])) of
               None \<Rightarrow> None
             | Some t \<Rightarrow>
                 Some ((train (normalizedHistory (map gweiOf ([1, 2, 3, 4, 5, 6, 7, 8, 9] @ [10])))
                          [t] ^^ 200)
                         (new_SimpleNeuralNetwork 10 5 1 half)))"
    by blast
  then have trained: "net (absorb ([1, 2, 3, 4, 5, 6, 7, 8, 9] @ [10]) (new_AIGasPredictor half)) =
       Some ((train [0, 1 / 9, 2 / 9, 1 / 3, 4 / 9, 5 / 9, 2 / 3, 7 / 9, 8 / 9, 1] [1 / 100] ^^ 200)
               (new_SimpleNeuralNetwork 10 5 1 half))"
    unfolding t n by simp
  from predictor_cold_until_window_full [of "[1, 2, 3, 4, 5, 6, 7, 8, 9] @ [10]" 7 half 0]
  have ready: "isReady (absorb ([1, 2, 3, 4, 5, 6, 7, 8, 9] @ [10]) (new_AIGasPredictor half))"
    by (simp add: windowSize_def)
  have init: "net (new_AIGasPredictor half) = Some (new_SimpleNeuralNetwork 10 5 1 half)"
    by (simp add: new_AIGasPredictor_def)
  show ?thesis
    using cold trained ready len short unfolding init by simp
qed


text \<open>
  C8. After any sequence of absorptions the window of a fresh predictor holds at most
  10 samples: exactly the last 10 absorbed (all of them while fewer), oldest first. One
  absorption never takes a window of at most 10 samples beyond 10, and at capacity it
  drops the oldest sample and appends the new one.
\<close>

theorem window_bounded_fifo:
  "length (historicalFees (absorb xs (new_AIGasPredictor random))) \<le> windowSize
   \<and> historicalFees (absorb xs (new_AIGasPredictor random)) =
       map gweiOf (drop (length xs - windowSize) xs)
   \<and> (length (historicalFees p) \<le> windowSize \<longrightarrow>
        length (historicalFees (addBlockDataAndTrain x p)) \<le> windowSize)
   \<and> (length (historicalFees p) = windowSize \<longrightarrow>
        historicalFees (addBlockDataAndTrain x p) = tl (historicalFees p) @ [gweiOf x])"
proof (intro conjI impI)
  show "length (historicalFees (absorb xs (new_AIGasPredictor random))) \<le> windowSize"
    by (simp add: absorb_fees_length)
next
  show "historicalFees (absorb xs (new_AIGasPredictor random)) =
          map gweiOf (drop (length xs - windowSize) xs)"
    by (rule absorb_fees)
next
  assume "length (historicalFees p) \<le> windowSize"
  then show "length (historicalFees (addBlockDataAndTrain x p)) \<le> windowSize"
    by (simp add: addBlock_fees)
next
  assume full: "length (historicalFees p) = windowSize"
  then have "historicalFees p \<noteq> []"
    by (auto simp: windowSize_def)
  then show "historicalFees (addBlockDataAndTrain x p) = tl (historicalFees p) @ [gweiOf x]"
    using full by (simp add: addBlock_fees)
qed

theorem window_bounded_fifo_witness:
  "historicalFees (absorb [1, 2, 3, 4, 5, 6, 7, 8, 9, 10, 11, 12] (new_AIGasPredictor (\<lambda>k. 1 / 2))) =
     map gweiOf [3, 4, 5, 6, 7, 8, 9, 10, 11, 12]
   \<and> length (map gweiOf [1, 2, 3, 4, 5, 6, 7, 8, 9, 10]) = windowSize
   \<and> historicalFees (addBlockDataAndTrain 11
        \<lparr> net = None, isTrained = True, historicalFees = map gweiOf [1, 2, 3, 4, 5, 6, 7, 8, 9, 10] \<rparr>) =
       map gweiOf [2, 3, 4, 5, 6, 7, 8, 9, 10, 11]"
  using window_bounded_fifo [of "[1, 2, 3, 4, 5, 6, 7, 8, 9, 10, 11, 12]" "\<lambda>k. 1 / 2"
      "\<lparr> net = None, isTrained = True, historicalFees = map gweiOf [1, 2, 3, 4, 5, 6, 7, 8, 9, 10] \<rparr>" 11]
  by (simp add: windowSize_def)


text \<open>
  C10. The score operation never reads its fee argument: for one predictor state, any two
  fee arguments give the same (execute, score) pair.
\<close>

theorem shouldExecuteBatch_ignores_fee:
  "shouldExecuteBatch fee1 p = shouldExecuteBatch fee2 p"
  by (simp add: shouldExecuteBatch_def)

theorem shouldExecuteBatch_ignores_fee_witness:
  "shouldExecuteBatch 1
     (absorb [1, 2, 3, 4, 5, 6, 7, 8, 9, 10] (new_AIGasPredictor (\<lambda>k. 1 / 2))) =
   shouldExecuteBatch 5000000000
     (absorb [1, 2, 3, 4, 5, 6, 7, 8, 9, 10] (new_AIGasPredictor (\<lambda>k. 1 / 2)))"
  by (rule shouldExecuteBatch_ignores_fee)






lemma rangeOf_nonzero: "rangeOf fees \<noteq> 0"
  by (simp add: rangeOf_def)




subsection \<open>The forward and backward pass in terms of sums\<close>












subsection \<open>The logistic function\<close>













subsection \<open>How far one training step moves the output\<close>









subsection \<open>Bounds on the exponential at the points needed\<close>







subsection \<open>The spike example\<close>





















lemma spikeRandom_range: "0 \<le> spikeRandom k \<and> spikeRandom k < 1"
  by (simp add: spikeRandom_def)

subsection \<open>The training labels of falling and rising windows\<close>









subsection \<open>Training moves the score toward the label\<close>




















section \<open>Properties of the relayer\<close>

lemma syncState_frame [simp]:
  "isExecuting (syncState now r) = isExecuting r"
  "suspended (syncState now r) = suspended r"
  "timers (syncState now r) = timers r"
  "gasAI (syncState now r) = gasAI r"
  "config_batchSizeThreshold (syncState now r) = config_batchSizeThreshold r"
  "intentPool (syncState now r) = intentPool r"
  "lastBatchObjs (syncState now r) = lastBatchObjs r"
  "nextRef (syncState now r) = Suc (Suc (nextRef r))"
  "totalBatchesExecuted (state (syncState now r)) = totalBatchesExecuted (state r)"
  "totalIntentsProcessed (state (syncState now r)) = totalIntentsProcessed (state r)"
  "lastBatch (state (syncState now r)) = lastBatch (state r)"
  "pooledIntents (state (syncState now r)) = nextRef r"
  "aiState (state (syncState now r)) = Suc (nextRef r)"
  by (simp_all add: syncState_def Let_def)

lemma syncState_status:
  "status (state (syncState now r)) =
     (if status (state r) = EXECUTING \<or> status (state r) = ERROR then status (state r)
      else if pool r \<noteq> [] then POOLING else IDLE)"
  by (simp add: syncState_def Let_def)

lemma syncState_arrays:
  "arrays (syncState now r) a = (if a = nextRef r then pool r else arrays r a)"
  by (simp add: syncState_def Let_def)

lemma syncState_aiStateObjs:
  "a \<noteq> Suc (nextRef r) \<Longrightarrow> aiStateObjs (syncState now r) a = aiStateObjs r a"
  by (simp add: syncState_def Let_def)

lemma syncState_pool [simp]:
  "allocated r \<Longrightarrow> pool (syncState now r) = pool r"
  by (simp add: pool_def syncState_arrays allocated_def)

lemma syncState_allocated [simp]:
  "allocated r \<Longrightarrow> allocated (syncState now r)"
  by (simp add: allocated_def)

lemma extends_refl: "allocated r \<Longrightarrow> extends r r"
  by (simp add: extends_def)

lemma extends_trans: "extends r r' \<Longrightarrow> extends r' r'' \<Longrightarrow> extends r r''"
  by (auto simp: extends_def)

lemma syncState_extends: "allocated r \<Longrightarrow> extends r (syncState now r)"
  by (simp add: extends_def syncState_arrays syncState_aiStateObjs)

text \<open>Writing the live pool array in place.\<close>

lemma write_pool_extends:
  "allocated r \<Longrightarrow> extends r (r \<lparr> arrays := (arrays r) (intentPool r := xs) \<rparr>)"
  by (simp add: extends_def allocated_def)

lemma write_pool_allocated [simp]:
  "allocated (r \<lparr> arrays := f \<rparr>) = allocated r"
  "allocated (r \<lparr> isExecuting := b \<rparr>) = allocated r"
  "allocated (r \<lparr> suspended := s \<rparr>) = allocated r"
  "allocated (r \<lparr> timers := t \<rparr>) = allocated r"
  by (simp_all add: allocated_def)

lemma write_pool [simp]:
  "pool (r \<lparr> arrays := (arrays r) (intentPool r := xs) \<rparr>) = xs"
  by (simp add: pool_def)

lemma executeBatch_noop:
  "isExecuting r \<or> pool r = [] \<Longrightarrow> executeBatch now r = r"
  by (auto simp: executeBatch_def)

lemma executeBatch_starts:
  assumes "allocated r" "\<not> isExecuting r" "pool r \<noteq> []"
  shows "pool (executeBatch now r) = []"
    and "suspended (executeBatch now r) = suspended r @ [pool r]"
    and "isExecuting (executeBatch now r)"
    and "status (state (executeBatch now r)) = EXECUTING"
    and "timers (executeBatch now r) = timers r"
  using assms
  by (simp_all add: executeBatch_def Let_def syncState_status pool_def syncState_arrays allocated_def)

lemma executeBatch_extends: "allocated r \<Longrightarrow> extends r (executeBatch now r)"
proof (cases "isExecuting r \<or> pool r = []")
  case True
  assume "allocated r"
  then show ?thesis using True by (simp add: executeBatch_noop extends_refl)
next
  case False
  assume a: "allocated r"
  let ?r1 = "r \<lparr> isExecuting := True, state := (state r) \<lparr> status := EXECUTING \<rparr>,
                  arrays := (arrays r) (intentPool r := []) \<rparr>"
  have "extends r ?r1"
    using a by (simp add: extends_def allocated_def)
  moreover have "allocated ?r1"
    using a by (simp add: allocated_def)
  then have "extends ?r1 (syncState now ?r1)"
    by (rule syncState_extends)
  ultimately have "extends r (syncState now ?r1)"
    by (rule extends_trans)
  then have "extends r ((syncState now ?r1) \<lparr> suspended := suspended (syncState now ?r1) @ [pool r] \<rparr>)"
    by (simp add: extends_def allocated_def)
  then show ?thesis
    using False by (simp add: executeBatch_def Let_def)
qed

lemma executeBatch_allocated: "allocated r \<Longrightarrow> allocated (executeBatch now r)"
  using executeBatch_extends [of r now] by (simp add: extends_def)


lemma handleIntent_waiting:
  assumes "allocated r" "isExecuting r"
  shows "pool (handleIntent now intent r) = pool r @ [intent]"
    and "suspended (handleIntent now intent r) = suspended r"
    and "isExecuting (handleIntent now intent r)"
    and "timers (handleIntent now intent r) = timers r"
  using assms by (simp_all add: handleIntent_def Let_def executeBatch_noop)

lemma handleIntent_below:
  assumes "allocated r" "int (length (pool r)) + 1 < config_batchSizeThreshold r"
  shows "pool (handleIntent now intent r) = pool r @ [intent]"
    and "suspended (handleIntent now intent r) = suspended r"
  using assms by (simp_all add: handleIntent_def Let_def)

lemma handleIntent_extends: "allocated r \<Longrightarrow> extends r (handleIntent now intent r)"
proof -
  assume a: "allocated r"
  let ?r0 = "r \<lparr> arrays := (arrays r) (intentPool r := pool r @ [intent]) \<rparr>"
  have e0: "extends r ?r0"
    using a by (rule write_pool_extends)
  have a0: "allocated ?r0"
    using a by simp
  have e1: "extends r (syncState now ?r0)"
    using e0 syncState_extends [OF a0] by (rule extends_trans)
  have "extends (syncState now ?r0) (executeBatch now (syncState now ?r0))"
    using a0 by (simp add: executeBatch_extends)
  with e1 have "extends r (executeBatch now (syncState now ?r0))"
    by (rule extends_trans)
  with e1 show ?thesis
    by (simp add: handleIntent_def Let_def)
qed


text \<open>
  C1, as amended. When an enqueue brings the pool to the size threshold or beyond and the
  relayer's \<open>isExecuting\<close> flag is clear, \<open>handleIntent\<close> starts a batch execution at once,
  whatever the predictor holds: the batch it drains is the whole pool with the new intent
  last, the pool is then empty, the flag is set and the status is EXECUTING. When the flag
  is set, the trigger is dropped: the intent is appended to the pool and no batch is
  started.
\<close>

theorem handleIntent_threshold_trigger:
  assumes "allocated r"
    and "config_batchSizeThreshold r \<le> int (length (pool r)) + 1"
  shows "if isExecuting r
         then pool (handleIntent now intent r) = pool r @ [intent]
              \<and> suspended (handleIntent now intent r) = suspended r
         else pool (handleIntent now intent r) = []
              \<and> suspended (handleIntent now intent r) = suspended r @ [pool r @ [intent]]
              \<and> isExecuting (handleIntent now intent r)
              \<and> status (state (handleIntent now intent r)) = EXECUTING"
proof (cases "isExecuting r")
  case True
  then show ?thesis
    using assms(1) by (simp add: handleIntent_waiting)
next
  case False
  let ?r1 = "syncState now (r \<lparr> arrays := (arrays r) (intentPool r := pool r @ [intent]) \<rparr>)"
  have p1: "pool ?r1 = pool r @ [intent]" and a1: "allocated ?r1" and x1: "\<not> isExecuting ?r1"
    using assms(1) False by simp_all
  have h: "handleIntent now intent r = executeBatch now ?r1"
    using assms(2) p1 by (simp add: handleIntent_def Let_def)
  have ne: "pool ?r1 \<noteq> []"
    using p1 by simp
  show ?thesis
    using False executeBatch_starts [OF a1 x1 ne, of now] p1 by (simp add: h)
qed

theorem handleIntent_threshold_trigger_witness:
  "allocated (new_AegisRelayer 1 0 half)
   \<and> config_batchSizeThreshold (new_AegisRelayer 1 0 half)
        \<le> int (length (pool (new_AegisRelayer 1 0 half))) + 1
   \<and> pool (handleIntent 1 intentA (new_AegisRelayer 1 0 half)) = []
   \<and> suspended (handleIntent 1 intentA (new_AegisRelayer 1 0 half)) = [[intentA]]
   \<and> isExecuting (handleIntent 1 intentA (new_AegisRelayer 1 0 half))
   \<and> allocated (handleIntent 1 intentA (new_AegisRelayer 1 0 half))
   \<and> pool (handleIntent 2 intentB (handleIntent 1 intentA (new_AegisRelayer 1 0 half))) =
       pool (handleIntent 1 intentA (new_AegisRelayer 1 0 half)) @ [intentB]"
proof -
  have a0: "allocated (new_AegisRelayer 1 0 half)"
    and t0: "config_batchSizeThreshold (new_AegisRelayer 1 0 half)
               \<le> int (length (pool (new_AegisRelayer 1 0 half))) + 1"
    and x0: "\<not> isExecuting (new_AegisRelayer 1 0 half)"
    and p0: "pool (new_AegisRelayer 1 0 half) = []" "suspended (new_AegisRelayer 1 0 half) = []"
    by (simp_all add: new_AegisRelayer_def allocated_def pool_def)
  note first = handleIntent_threshold_trigger [OF a0 t0, of 1 intentA]
  have a1: "allocated (handleIntent 1 intentA (new_AegisRelayer 1 0 half))"
    using handleIntent_extends [OF a0, of 1 intentA] by (simp add: extends_def)
  have t1: "config_batchSizeThreshold (handleIntent 1 intentA (new_AegisRelayer 1 0 half))
              \<le> int (length (pool (handleIntent 1 intentA (new_AegisRelayer 1 0 half)))) + 1"
    by (simp add: handleIntent_def executeBatch_def syncState_def pool_def new_AegisRelayer_def
        Let_def)
  note second = handleIntent_threshold_trigger [OF a1 t1, of 2 intentB]
  show ?thesis
    using a0 t0 x0 p0 a1 first second by simp
qed

text \<open>
  The claim as stated fails while the flag is set. With threshold 1, the first intent
  starts an execution and sets the flag; the second arrives before the ledger has answered,
  brings the pool to the threshold, and stays pooled: no batch holds it and the pool is not
  empty.
\<close>

theorem handleIntent_threshold_trigger_counterexample:
  "config_batchSizeThreshold (handleIntent 1 intentA (new_AegisRelayer 1 0 half))
     \<le> int (length (pool (handleIntent 1 intentA (new_AegisRelayer 1 0 half)))) + 1
   \<and> pool (handleIntent 2 intentB (handleIntent 1 intentA (new_AegisRelayer 1 0 half))) = [intentB]
   \<and> suspended (handleIntent 2 intentB (handleIntent 1 intentA (new_AegisRelayer 1 0 half))) =
       [[intentA]]"
  by (simp add: handleIntent_def executeBatch_def syncState_def pool_def new_AegisRelayer_def
      Let_def)


lemma pool_timers [simp]: "pool (r \<lparr> timers := t \<rparr>) = pool r"
  by (simp add: pool_def)

lemma resume_failure:
  assumes "allocated r" and "settle ledger (sumAmounts batch) = Inl err"
  shows "pool (executeBatch_resume lib now ledger batch r) = batch @ pool r"
    and "status (state (executeBatch_resume lib now ledger batch r)) = ERROR"
    and "\<not> isExecuting (executeBatch_resume lib now ledger batch r)"
    and "timers (executeBatch_resume lib now ledger batch r) =
           (if batch @ pool r \<noteq> [] then timers r @ [now + 10000] else timers r)"
    and "suspended (executeBatch_resume lib now ledger batch r) = suspended r"
proof -
  define r1 where "r1 = r \<lparr> arrays := (arrays r) (intentPool r := batch @ pool r),
                            state := (state r) \<lparr> status := ERROR \<rparr>, isExecuting := False \<rparr>"
  define r2 where "r2 = syncState now r1"
  have a1: "allocated r1"
    using assms(1) by (simp add: allocated_def r1_def)
  have p1: "pool r1 = batch @ pool r"
    by (simp add: pool_def r1_def)
  have p2: "pool r2 = batch @ pool r"
    using a1 p1 by (simp add: r2_def)
  have res: "executeBatch_resume lib now ledger batch r =
               (if length (pool r2) > 0 then r2 \<lparr> timers := timers r2 @ [now + 10000] \<rparr> else r2)"
    using assms(2) by (simp add: executeBatch_resume_def Let_def r1_def r2_def)
  have st: "status (state r2) = ERROR" and ex: "\<not> isExecuting r2"
    and tm: "timers r2 = timers r" and su: "suspended r2 = suspended r"
    by (simp_all add: r2_def syncState_status, simp_all add: r1_def)
  show "pool (executeBatch_resume lib now ledger batch r) = batch @ pool r"
    unfolding res using p2 by simp
  show "status (state (executeBatch_resume lib now ledger batch r)) = ERROR"
    unfolding res using st by simp
  show "\<not> isExecuting (executeBatch_resume lib now ledger batch r)"
    unfolding res using ex by simp
  show "timers (executeBatch_resume lib now ledger batch r) =
          (if batch @ pool r \<noteq> [] then timers r @ [now + 10000] else timers r)"
    unfolding res using p2 tm by simp
  show "suspended (executeBatch_resume lib now ledger batch r) = suspended r"
    unfolding res using su by simp
qed

lemma resume_success:
  assumes "allocated r" and "settle ledger (sumAmounts batch) = Inr hash"
  shows "pool (executeBatch_resume lib now ledger batch r) = pool r"
    and "status (state (executeBatch_resume lib now ledger batch r)) =
           (if pool r \<noteq> [] then POOLING else IDLE)"
    and "\<not> isExecuting (executeBatch_resume lib now ledger batch r)"
    and "totalBatchesExecuted (state (executeBatch_resume lib now ledger batch r)) =
           totalBatchesExecuted (state r) + 1"
    and "totalIntentsProcessed (state (executeBatch_resume lib now ledger batch r)) =
           totalIntentsProcessed (state r) + length batch"
    and "lastBatchObjs (executeBatch_resume lib now ledger batch r)
           (lastBatch (state (executeBatch_resume lib now ledger batch r))) =
           \<lparr> lastBatch_txHash = Some hash, batchSize = length batch,
             totalValue = formatEther lib (sumAmounts batch), executedAt = Some now \<rparr>"
proof -
  define r1 where "r1 = r \<lparr> lastBatchObjs := (lastBatchObjs r)
                    (nextRef r :=
                       \<lparr> lastBatch_txHash = Some hash, batchSize = length batch,
                         totalValue = formatEther lib (sumAmounts batch),
                         executedAt = Some now \<rparr>),
                  nextRef := Suc (nextRef r),
                  state := (state r)
                    \<lparr> lastBatch := nextRef r,
                      totalBatchesExecuted := totalBatchesExecuted (state r) + 1,
                      totalIntentsProcessed := totalIntentsProcessed (state r) + length batch,
                      status := (if length (pool r) > 0 then POOLING else IDLE) \<rparr>,
                  isExecuting := False \<rparr>"
  define r2 where "r2 = syncState now r1"
  have a1: "allocated r1"
    using assms(1) by (simp add: allocated_def r1_def)
  have p1: "pool r1 = pool r"
    by (simp add: pool_def r1_def)
  have p2: "pool r2 = pool r"
    using a1 p1 by (simp add: r2_def)
  have res: "executeBatch_resume lib now ledger batch r =
               (if length (pool r2) > 0 then r2 \<lparr> timers := timers r2 @ [now + 10000] \<rparr> else r2)"
    using assms(2) by (simp add: executeBatch_resume_def Let_def r1_def r2_def)
  have st: "status (state r2) = (if pool r \<noteq> [] then POOLING else IDLE)"
    unfolding r2_def syncState_status p1 by (simp add: r1_def)
  have rest: "\<not> isExecuting r2"
    "totalBatchesExecuted (state r2) = totalBatchesExecuted (state r) + 1"
    "totalIntentsProcessed (state r2) = totalIntentsProcessed (state r) + length batch"
    "lastBatchObjs r2 (lastBatch (state r2)) =
       \<lparr> lastBatch_txHash = Some hash, batchSize = length batch,
         totalValue = formatEther lib (sumAmounts batch), executedAt = Some now \<rparr>"
    by (simp_all add: r2_def, simp_all add: r1_def)
  show "pool (executeBatch_resume lib now ledger batch r) = pool r"
    unfolding res using p2 by simp
  show "status (state (executeBatch_resume lib now ledger batch r)) =
          (if pool r \<noteq> [] then POOLING else IDLE)"
    unfolding res using st by simp
  show "\<not> isExecuting (executeBatch_resume lib now ledger batch r)"
    unfolding res using rest(1) by simp
  show "totalBatchesExecuted (state (executeBatch_resume lib now ledger batch r)) =
          totalBatchesExecuted (state r) + 1"
    unfolding res using rest(2) by simp
  show "totalIntentsProcessed (state (executeBatch_resume lib now ledger batch r)) =
          totalIntentsProcessed (state r) + length batch"
    unfolding res using rest(3) by simp
  show "lastBatchObjs (executeBatch_resume lib now ledger batch r)
          (lastBatch (state (executeBatch_resume lib now ledger batch r))) =
          \<lparr> lastBatch_txHash = Some hash, batchSize = length batch,
            totalValue = formatEther lib (sumAmounts batch), executedAt = Some now \<rparr>"
    unfolding res using rest(4) by simp
qed

lemma getStatus_snd [simp]: "snd (getStatus now r) = syncState now r"
  by (simp add: getStatus_def Let_def)

lemma getStatus_fst [simp]: "fst (getStatus now r) = state (syncState now r)"
  by (simp add: getStatus_def Let_def)

lemma onBlock_waiting:
  assumes "allocated r" "isExecuting r"
  shows "pool (onBlock lib now baseFeePerGas r) = pool r"
    and "suspended (onBlock lib now baseFeePerGas r) = suspended r"
    and "isExecuting (onBlock lib now baseFeePerGas r)"
    and "timers (onBlock lib now baseFeePerGas r) = timers r"
    and "allocated (onBlock lib now baseFeePerGas r)"
  using assms
  by (auto simp: onBlock_def Let_def executeBatch_noop pool_def allocated_def
      split: option.splits prod.splits)

lemma step_waiting:
  assumes "allocated r" "isExecuting r" "duringAttempt (snd ev)"
  shows "pool (step lib r ev) = pool r @ enqueued [ev]"
    and "suspended (step lib r ev) = suspended r"
    and "isExecuting (step lib r ev)"
    and "timers (step lib r ev) = timers r"
    and "allocated (step lib r ev)"
proof -
  obtain now e where ev: "ev = (now, e)"
    by (cases ev)
  show "pool (step lib r ev) = pool r @ enqueued [ev]"
    using assms by (cases e) (simp_all add: ev handleIntent_waiting onBlock_waiting)
  show "suspended (step lib r ev) = suspended r"
    using assms by (cases e) (simp_all add: ev handleIntent_waiting onBlock_waiting)
  show "isExecuting (step lib r ev)"
    using assms by (cases e) (simp_all add: ev handleIntent_waiting onBlock_waiting)
  show "timers (step lib r ev) = timers r"
    using assms by (cases e) (simp_all add: ev handleIntent_waiting onBlock_waiting)
  show "allocated (step lib r ev)"
    using assms handleIntent_extends [of r]
    by (cases e) (simp_all add: ev onBlock_waiting extends_def)
qed

lemma enqueued_Cons: "enqueued (ev # evs) = enqueued [ev] @ enqueued evs"
proof -
  obtain now e where "ev = (now, e)"
    by (cases ev)
  then show ?thesis
    by (cases e) simp_all
qed

lemma run_waiting:
  assumes "allocated r" "isExecuting r" "list_all (\<lambda>ev. duringAttempt (snd ev)) evs"
  shows "pool (run_events lib evs r) = pool r @ enqueued evs
         \<and> suspended (run_events lib evs r) = suspended r
         \<and> isExecuting (run_events lib evs r)
         \<and> timers (run_events lib evs r) = timers r
         \<and> allocated (run_events lib evs r)"
  using assms
proof (induction evs arbitrary: r)
  case Nil
  then show ?case by (simp add: run_events_def)
next
  case (Cons ev evs)
  have d: "duringAttempt (snd ev)" and ds: "list_all (\<lambda>ev. duringAttempt (snd ev)) evs"
    using Cons.prems(3) by simp_all
  note s = step_waiting [OF Cons.prems(1,2) d, of lib]
  have "run_events lib (ev # evs) r = run_events lib evs (step lib r ev)"
    by (simp add: run_events_def)
  then show ?case
    using Cons.IH [OF s(5) s(3) ds] s(1,2,4) enqueued_Cons [of ev evs] by simp
qed


text \<open>
  A resumed attempt whose ledger calls fail at any point (balance query, insufficient
  funds, gas estimate, submission, confirmation) puts its batch back in front of whatever
  the pool holds at that moment, in the batch's order, and sets the status to ERROR. While
  the attempt is the only one in flight and no timeout fires before it is resumed, the pool
  is then the pool from before the drain followed by the intents that arrived meanwhile.
\<close>

lemma failed_attempt_single_flight:
  assumes "settle ledger (sumAmounts batch) = Inl err"
  shows "(allocated r \<longrightarrow>
            pool (executeBatch_resume lib now ledger batch r) = batch @ pool r
            \<and> status (state (executeBatch_resume lib now ledger batch r)) = ERROR)
         \<and> (allocated r0 \<and> \<not> isExecuting r0 \<and> pool r0 = batch \<and> batch \<noteq> []
              \<and> list_all (\<lambda>ev. duringAttempt (snd ev)) evs \<longrightarrow>
            pool (step lib (run_events lib evs (executeBatch t0 r0))
                    (now, Resumes (length (suspended r0)) ledger)) = batch @ enqueued evs
            \<and> status (state (step lib (run_events lib evs (executeBatch t0 r0))
                    (now, Resumes (length (suspended r0)) ledger))) = ERROR)"
proof (intro conjI impI)
  assume "allocated r"
  then show "pool (executeBatch_resume lib now ledger batch r) = batch @ pool r"
    and "status (state (executeBatch_resume lib now ledger batch r)) = ERROR"
    using assms by (simp_all add: resume_failure)
next
  assume h: "allocated r0 \<and> \<not> isExecuting r0 \<and> pool r0 = batch \<and> batch \<noteq> []
              \<and> list_all (\<lambda>ev. duringAttempt (snd ev)) evs"
  define r1 where "r1 = executeBatch t0 r0"
  define r2 where "r2 = run_events lib evs r1"
  define r2' where "r2' = r2 \<lparr> suspended := take (length (suspended r0)) (suspended r2)
                                 @ drop (Suc (length (suspended r0))) (suspended r2) \<rparr>"
  have ne: "pool r0 \<noteq> []"
    using h by simp
  have s1: "pool r1 = []" "suspended r1 = suspended r0 @ [batch]" "isExecuting r1" "allocated r1"
    using h executeBatch_starts [of r0 t0] executeBatch_allocated [of r0 t0] ne
    by (simp_all add: r1_def)
  have s2: "pool r2 = enqueued evs" "suspended r2 = suspended r0 @ [batch]" "allocated r2"
    using run_waiting [of r1 evs lib] s1 h by (simp_all add: r2_def)
  have st: "step lib r2 (now, Resumes (length (suspended r0)) ledger) =
              executeBatch_resume lib now ledger batch r2'"
    using s2(2) by (simp add: r2'_def)
  have s2': "pool r2' = enqueued evs" "allocated r2'"
    using s2 by (simp_all add: r2'_def pool_def)
  show "pool (step lib (run_events lib evs (executeBatch t0 r0))
                (now, Resumes (length (suspended r0)) ledger)) = batch @ enqueued evs"
    using resume_failure(1) [OF s2'(2) assms, of lib now] s2'(1) st
    by (simp add: r2_def r1_def)
  show "status (state (step lib (run_events lib evs (executeBatch t0 r0))
                (now, Resumes (length (suspended r0)) ledger))) = ERROR"
    using resume_failure(2) [OF s2'(2) assms, of lib now] st
    by (simp add: r2_def r1_def)
qed


text \<open>
  C2, evaluated on the code. Threshold 1, and a ledger that accepts every batch
  transaction but fails to confirm it. The intent A starts an attempt, which fails at time
  1000; that leaves A in the pool and a timeout due at 11000. The intent B, at 1001, starts
  the attempt in question: it drains [A, B]. The timeout fires at 11000 while that attempt
  waits for its confirmation, and its callback clears the executing flag. The intent C, at
  11001, is enqueued during the attempt; as the flag is clear it starts another attempt,
  which drains [C]. When the attempt in question fails at 11002, the status is ERROR and
  the pool is [A, B]: the pre-drain sequence, but not followed by C, which was enqueued
  during the attempt and sits in the batch of the attempt still in flight.
\<close>

theorem failed_attempt_loses_enqueued:
  "suspended (run_events plainLib
      [(1, IntentRegistered intentA), (1000, Resumes 0 unconfirmed),
       (1001, IntentRegistered intentB)]
      (start (new_AegisRelayer 1 0 half))) = [[intentA, intentB]]
   \<and> isExecuting (run_events plainLib
      [(1, IntentRegistered intentA), (1000, Resumes 0 unconfirmed),
       (1001, IntentRegistered intentB)]
      (start (new_AegisRelayer 1 0 half)))
   \<and> timers (run_events plainLib
      [(1, IntentRegistered intentA), (1000, Resumes 0 unconfirmed),
       (1001, IntentRegistered intentB)]
      (start (new_AegisRelayer 1 0 half))) = [11000]
   \<and> suspended (run_events plainLib
      [(1, IntentRegistered intentA), (1000, Resumes 0 unconfirmed),
       (1001, IntentRegistered intentB), (11000, TimerFires 0)]
      (start (new_AegisRelayer 1 0 half))) = [[intentA, intentB]]
   \<and> \<not> isExecuting (run_events plainLib
      [(1, IntentRegistered intentA), (1000, Resumes 0 unconfirmed),
       (1001, IntentRegistered intentB), (11000, TimerFires 0)]
      (start (new_AegisRelayer 1 0 half)))
   \<and> suspended (run_events plainLib
      [(1, IntentRegistered intentA), (1000, Resumes 0 unconfirmed),
       (1001, IntentRegistered intentB), (11000, TimerFires 0),
       (11001, IntentRegistered intentC)]
      (start (new_AegisRelayer 1 0 half))) = [[intentA, intentB], [intentC]]
   \<and> pool (run_events plainLib
      [(1, IntentRegistered intentA), (1000, Resumes 0 unconfirmed),
       (1001, IntentRegistered intentB), (11000, TimerFires 0),
       (11001, IntentRegistered intentC)]
      (start (new_AegisRelayer 1 0 half))) = []
   \<and> settle unconfirmed (sumAmounts [intentA, intentB]) = Inl ConfirmationFailed
   \<and> status (state (run_events plainLib
      [(1, IntentRegistered intentA), (1000, Resumes 0 unconfirmed),
       (1001, IntentRegistered intentB), (11000, TimerFires 0),
       (11001, IntentRegistered intentC), (11002, Resumes 0 unconfirmed)]
      (start (new_AegisRelayer 1 0 half)))) = ERROR
   \<and> pool (run_events plainLib
      [(1, IntentRegistered intentA), (1000, Resumes 0 unconfirmed),
       (1001, IntentRegistered intentB), (11000, TimerFires 0),
       (11001, IntentRegistered intentC), (11002, Resumes 0 unconfirmed)]
      (start (new_AegisRelayer 1 0 half))) = [intentA, intentB]
   \<and> suspended (run_events plainLib
      [(1, IntentRegistered intentA), (1000, Resumes 0 unconfirmed),
       (1001, IntentRegistered intentB), (11000, TimerFires 0),
       (11001, IntentRegistered intentC), (11002, Resumes 0 unconfirmed)]
      (start (new_AegisRelayer 1 0 half))) = [[intentC]]"
  by (simp add: run_events_def handleIntent_def executeBatch_def executeBatch_resume_def
      syncState_def pool_def new_AegisRelayer_def start_def Let_def settle_def sumAmounts_def
      unconfirmed_def intentA_def intentB_def intentC_def timeout_def)

theorem failed_attempt_loses_enqueued_witness:
  "pool (run_events plainLib
      [(1, IntentRegistered intentA), (1000, Resumes 0 unconfirmed),
       (1001, IntentRegistered intentB), (11000, TimerFires 0),
       (11001, IntentRegistered intentC), (11002, Resumes 0 unconfirmed)]
      (start (new_AegisRelayer 1 0 half))) = [intentA, intentB]"
  using failed_attempt_loses_enqueued
  by (rule conjunct2 [THEN conjunct2, THEN conjunct2, THEN conjunct2, THEN conjunct2,
        THEN conjunct2, THEN conjunct2, THEN conjunct2, THEN conjunct2, THEN conjunct1])


lemma sumAmounts_sum_list: "sumAmounts batch = sum_list (map amount batch)"
proof -
  have "foldl (\<lambda>acc v. acc + v) a vs = a + sum_list vs" for a :: int and vs
    by (induction vs arbitrary: a) simp_all
  then show ?thesis
    by (simp add: sumAmounts_def)
qed

text \<open>
  C4. When a resumed attempt is confirmed by the ledger (the vault holds at least the sum
  of the batch's amounts, and the estimate, the submission and the confirmation succeed),
  the count of executed batches grows by exactly 1 and the count of processed intents by
  the batch size; the last-batch summary is the transaction hash, the batch size, the
  rendering of the sum of the amounts of the batch's intents and the completion time; the
  status is POOLING if the pool holds intents at that moment and IDLE otherwise; the pool
  itself is untouched and the executing flag is cleared.
\<close>

theorem successful_attempt_accounting:
  assumes "allocated r"
    and "settle ledger (sum_list (map amount batch)) = Inr hash"
  shows "totalBatchesExecuted (state (executeBatch_resume lib now ledger batch r)) =
           totalBatchesExecuted (state r) + 1
         \<and> totalIntentsProcessed (state (executeBatch_resume lib now ledger batch r)) =
             totalIntentsProcessed (state r) + length batch
         \<and> lastBatchObjs (executeBatch_resume lib now ledger batch r)
             (lastBatch (state (executeBatch_resume lib now ledger batch r))) =
             \<lparr> lastBatch_txHash = Some hash, batchSize = length batch,
               totalValue = formatEther lib (sum_list (map amount batch)),
               executedAt = Some now \<rparr>
         \<and> status (state (executeBatch_resume lib now ledger batch r)) =
             (if pool r \<noteq> [] then POOLING else IDLE)
         \<and> pool (executeBatch_resume lib now ledger batch r) = pool r
         \<and> \<not> isExecuting (executeBatch_resume lib now ledger batch r)"
proof -
  have ok: "settle ledger (sumAmounts batch) = Inr hash"
    using assms(2) by (simp add: sumAmounts_sum_list)
  show ?thesis
    using resume_success [OF assms(1) ok, of lib now] by (simp add: sumAmounts_sum_list)
qed

text \<open>The scenario of the specification: threshold 5, five intents (of 1, 2, 3, 1 and 2
  wei), a ledger that holds 100 wei and confirms; the recorded total is 9 wei.\<close>

theorem successful_attempt_accounting_witness:
  "settle confirming (sum_list (map amount [intentA, intentB, intentC, intentA, intentB])) =
     Inr ''0xT2''
   \<and> suspended (run_events tallyLib
        [(1, IntentRegistered intentA), (2, IntentRegistered intentB),
         (3, IntentRegistered intentC), (4, IntentRegistered intentA),
         (5, IntentRegistered intentB)] (start (new_AegisRelayer 5 0 half))) =
       [[intentA, intentB, intentC, intentA, intentB]]
   \<and> totalBatchesExecuted (state (executeBatch_resume tallyLib 9 confirming
        [intentA, intentB, intentC, intentA, intentB]
        (run_events tallyLib
          [(1, IntentRegistered intentA), (2, IntentRegistered intentB),
           (3, IntentRegistered intentC), (4, IntentRegistered intentA),
           (5, IntentRegistered intentB)] (start (new_AegisRelayer 5 0 half))))) = 1
   \<and> totalIntentsProcessed (state (executeBatch_resume tallyLib 9 confirming
        [intentA, intentB, intentC, intentA, intentB]
        (run_events tallyLib
          [(1, IntentRegistered intentA), (2, IntentRegistered intentB),
           (3, IntentRegistered intentC), (4, IntentRegistered intentA),
           (5, IntentRegistered intentB)] (start (new_AegisRelayer 5 0 half))))) = 5
   \<and> lastBatchObjs (executeBatch_resume tallyLib 9 confirming
        [intentA, intentB, intentC, intentA, intentB]
        (run_events tallyLib
          [(1, IntentRegistered intentA), (2, IntentRegistered intentB),
           (3, IntentRegistered intentC), (4, IntentRegistered intentA),
           (5, IntentRegistered intentB)] (start (new_AegisRelayer 5 0 half))))
       (lastBatch (state (executeBatch_resume tallyLib 9 confirming
        [intentA, intentB, intentC, intentA, intentB]
        (run_events tallyLib
          [(1, IntentRegistered intentA), (2, IntentRegistered intentB),
           (3, IntentRegistered intentC), (4, IntentRegistered intentA),
           (5, IntentRegistered intentB)] (start (new_AegisRelayer 5 0 half)))))) =
       \<lparr> lastBatch_txHash = Some ''0xT2'', batchSize = 5, totalValue = ''IIIIIIIII'',
         executedAt = Some 9 \<rparr>
   \<and> status (state (executeBatch_resume tallyLib 9 confirming
        [intentA, intentB, intentC, intentA, intentB]
        (run_events tallyLib
          [(1, IntentRegistered intentA), (2, IntentRegistered intentB),
           (3, IntentRegistered intentC), (4, IntentRegistered intentA),
           (5, IntentRegistered intentB)] (start (new_AegisRelayer 5 0 half))))) = IDLE"
proof -
  define r where "r = run_events tallyLib
        [(1, IntentRegistered intentA), (2, IntentRegistered intentB),
         (3, IntentRegistered intentC), (4, IntentRegistered intentA),
         (5, IntentRegistered intentB)] (start (new_AegisRelayer 5 0 half))"
  have total: "sum_list (map amount [intentA, intentB, intentC, intentA, intentB]) = 9"
    by (simp add: intentA_def intentB_def intentC_def)
  have f: "settle confirming (sum_list (map amount [intentA, intentB, intentC, intentA, intentB])) =
             Inr ''0xT2''"
    unfolding total by (simp add: settle_def confirming_def)
  have r: "allocated r" "pool r = []"
    "suspended r = [[intentA, intentB, intentC, intentA, intentB]]"
    "totalBatchesExecuted (state r) = 0" "totalIntentsProcessed (state r) = 0"
    by (simp_all add: r_def run_events_def handleIntent_def executeBatch_def syncState_def
        pool_def new_AegisRelayer_def start_def Let_def allocated_def)
  have strokes: "formatEther tallyLib 9 = ''IIIIIIIII''"
    by (simp add: tallyLib_def eval_nat_numeral)
  note acc = successful_attempt_accounting [OF r(1) f, of tallyLib 9, unfolded total strokes]
  show ?thesis
    using f r acc by (simp add: r_def [symmetric])
qed


text \<open>
  C3, evaluated on the code. Threshold 2: two intents start an attempt, the vault is empty
  and the attempt fails at time 1000. The status is ERROR, both intents are back in the
  pool and the timeout is due at 11000, but the executing flag is already clear. The next
  intent, at 1001, reaches the threshold and starts a new attempt at once, with the
  timeout still pending.
\<close>

theorem no_cooldown_after_failure:
  "status (state (run_events plainLib
      [(1, IntentRegistered intentA), (2, IntentRegistered intentB), (1000, Resumes 0 emptyVault)]
      (start (new_AegisRelayer 2 0 half)))) = ERROR
   \<and> pool (run_events plainLib
      [(1, IntentRegistered intentA), (2, IntentRegistered intentB), (1000, Resumes 0 emptyVault)]
      (start (new_AegisRelayer 2 0 half))) = [intentA, intentB]
   \<and> timers (run_events plainLib
      [(1, IntentRegistered intentA), (2, IntentRegistered intentB), (1000, Resumes 0 emptyVault)]
      (start (new_AegisRelayer 2 0 half))) = [11000]
   \<and> isExecuting (run_events plainLib
      [(1, IntentRegistered intentA), (2, IntentRegistered intentB), (1000, Resumes 0 emptyVault),
       (1001, IntentRegistered intentC)]
      (start (new_AegisRelayer 2 0 half)))
   \<and> status (state (run_events plainLib
      [(1, IntentRegistered intentA), (2, IntentRegistered intentB), (1000, Resumes 0 emptyVault),
       (1001, IntentRegistered intentC)]
      (start (new_AegisRelayer 2 0 half)))) = EXECUTING
   \<and> suspended (run_events plainLib
      [(1, IntentRegistered intentA), (2, IntentRegistered intentB), (1000, Resumes 0 emptyVault),
       (1001, IntentRegistered intentC)]
      (start (new_AegisRelayer 2 0 half))) = [[intentA, intentB, intentC]]
   \<and> timers (run_events plainLib
      [(1, IntentRegistered intentA), (2, IntentRegistered intentB), (1000, Resumes 0 emptyVault),
       (1001, IntentRegistered intentC)]
      (start (new_AegisRelayer 2 0 half))) = [11000]"
  by (simp add: run_events_def handleIntent_def executeBatch_def executeBatch_resume_def
      syncState_def pool_def new_AegisRelayer_def start_def Let_def settle_def sumAmounts_def
      emptyVault_def intentA_def intentB_def intentC_def)

theorem no_cooldown_after_failure_witness:
  "isExecuting (run_events plainLib
      [(1, IntentRegistered intentA), (2, IntentRegistered intentB), (1000, Resumes 0 emptyVault),
       (1001, IntentRegistered intentC)]
      (start (new_AegisRelayer 2 0 half)))"
  using no_cooldown_after_failure by (rule conjunct2 [THEN conjunct2, THEN conjunct2, THEN conjunct1])


lemma extends_fields:
  "allocated r \<Longrightarrow>
     extends r (r \<lparr> currentGasGwei := g, gasAI := ai, currentAiScore := sc \<rparr>)"
  "allocated r \<Longrightarrow> extends r (r \<lparr> suspended := su \<rparr>)"
  "allocated r \<Longrightarrow> extends r (r \<lparr> timers := tm \<rparr>)"
  "allocated r \<Longrightarrow> extends r (r \<lparr> isExecuting := b \<rparr>)"
  by (simp_all add: extends_def allocated_def)

lemma onBlock_extends: "allocated r \<Longrightarrow> extends r (onBlock lib now baseFeePerGas r)"
proof -
  assume a: "allocated r"
  have ex: "extends r (executeBatch now (r \<lparr> currentGasGwei := g, gasAI := ai, currentAiScore := sc \<rparr>))"
    for g ai sc
  proof -
    have "extends r (r \<lparr> currentGasGwei := g, gasAI := ai, currentAiScore := sc \<rparr>)"
      using a by (rule extends_fields)
    moreover have "allocated (r \<lparr> currentGasGwei := g, gasAI := ai, currentAiScore := sc \<rparr>)"
      using a by (simp add: allocated_def)
    ultimately show ?thesis
      using executeBatch_extends extends_trans by blast
  qed
  show ?thesis
    using a ex
    by (auto simp: onBlock_def Let_def extends_refl extends_fields
        split: option.splits prod.splits)
qed

lemma resume_extends:
  "allocated r \<Longrightarrow> extends r (executeBatch_resume lib now ledger batch r)"
  by (auto simp: executeBatch_resume_def Let_def extends_def allocated_def syncState_def pool_def
      split: sum.splits)

lemma step_extends: "allocated r \<Longrightarrow> extends r (step lib r ev)"
proof -
  assume a: "allocated r"
  obtain now e where ev: "ev = (now, e)"
    by (cases ev)
  show ?thesis
  proof (cases e)
    case (IntentRegistered intent)
    then show ?thesis using a by (simp add: ev handleIntent_extends)
  next
    case (NewBlock fee)
    then show ?thesis using a by (simp add: ev onBlock_extends)
  next
    case (Resumes k ledger)
    let ?r' = "r \<lparr> suspended := take k (suspended r) @ drop (Suc k) (suspended r) \<rparr>"
    have "extends r ?r'" "allocated ?r'"
      using a by (simp_all add: extends_fields)
    then have "extends r (executeBatch_resume lib now ledger (suspended r ! k) ?r')"
      using resume_extends extends_trans by blast
    then show ?thesis
      using a Resumes by (simp add: ev extends_refl)
  next
    case (TimerFires k)
    then show ?thesis
      using a by (simp add: ev timeout_def extends_def allocated_def)
  next
    case StatusRequest
    then show ?thesis using a by (simp add: ev syncState_extends)
  qed
qed

lemma run_extends: "allocated r \<Longrightarrow> extends r (run_events lib evs r)"
proof (induction evs arbitrary: r)
  case Nil
  then show ?case by (simp add: run_events_def extends_refl)
next
  case (Cons ev evs)
  have e1: "extends r (step lib r ev)"
    using Cons.prems by (rule step_extends)
  then have "allocated (step lib r ev)"
    by (simp add: extends_def)
  then have "extends (step lib r ev) (run_events lib evs (step lib r ev))"
    by (rule Cons.IH)
  with e1 have "extends r (run_events lib evs (step lib r ev))"
    by (rule extends_trans)
  then show ?case by (simp add: run_events_def)
qed

lemma extends_contents:
  assumes "extends r r'"
    and "pooledIntents snap < nextRef r" "pooledIntents snap \<noteq> intentPool r"
    and "lastBatch snap < nextRef r" "aiState snap < nextRef r"
  shows "contents r' snap = contents r snap"
  using assms by (simp add: contents_def extends_def)


text \<open>
  C9. The snapshot returned by \<open>getStatus\<close> reports EXECUTING or ERROR when that is the
  current status, and otherwise POOLING for a non-empty pool and IDLE for an empty one.
  Its pooled intents are the pool of that moment, held in an array that is not the live
  pool array. Whatever events the relayer handles afterwards (intents, blocks, resumed
  attempts that succeed or fail, timeouts, further status requests), everything the caller
  reads through the snapshot stays as it was when the snapshot was returned.
\<close>

theorem getStatus_point_in_time:
  assumes "allocated r"
  shows "status (fst (getStatus now r)) =
           (if status (state r) = EXECUTING \<or> status (state r) = ERROR then status (state r)
            else if pool r \<noteq> [] then POOLING else IDLE)
         \<and> seen_pooledIntents (contents (snd (getStatus now r)) (fst (getStatus now r))) = pool r
         \<and> pooledIntents (fst (getStatus now r)) \<noteq> intentPool (snd (getStatus now r))
         \<and> contents (run_events lib evs (snd (getStatus now r))) (fst (getStatus now r)) =
             contents (snd (getStatus now r)) (fst (getStatus now r))"
proof (intro conjI)
  show "status (fst (getStatus now r)) =
          (if status (state r) = EXECUTING \<or> status (state r) = ERROR then status (state r)
           else if pool r \<noteq> [] then POOLING else IDLE)"
    by (simp add: syncState_status)
next
  show "seen_pooledIntents (contents (snd (getStatus now r)) (fst (getStatus now r))) = pool r"
    by (simp add: contents_def syncState_arrays)
next
  show "pooledIntents (fst (getStatus now r)) \<noteq> intentPool (snd (getStatus now r))"
    using assms by (simp add: allocated_def)
next
  have a: "allocated (syncState now r)"
    using assms by simp
  have "contents (run_events lib evs (syncState now r)) (state (syncState now r)) =
          contents (syncState now r) (state (syncState now r))"
    using run_extends [OF a, of lib evs] assms
    by (intro extends_contents) (simp_all add: allocated_def)
  then show "contents (run_events lib evs (snd (getStatus now r))) (fst (getStatus now r)) =
               contents (snd (getStatus now r)) (fst (getStatus now r))"
    by simp
qed

theorem getStatus_point_in_time_witness:
  "allocated (handleIntent 1 intentA (new_AegisRelayer 2 0 half))
   \<and> status (fst (getStatus 3 (handleIntent 1 intentA (new_AegisRelayer 2 0 half)))) = POOLING
   \<and> seen_pooledIntents
        (contents
           (run_events plainLib
              [(4, IntentRegistered intentB), (5, Resumes 0 confirming), (6, NewBlock (Some 7)),
               (7, StatusRequest)]
              (snd (getStatus 3 (handleIntent 1 intentA (new_AegisRelayer 2 0 half)))))
           (fst (getStatus 3 (handleIntent 1 intentA (new_AegisRelayer 2 0 half))))) = [intentA]
   \<and> seen_totalIntentsProcessed
        (contents
           (run_events plainLib
              [(4, IntentRegistered intentB), (5, Resumes 0 confirming), (6, NewBlock (Some 7)),
               (7, StatusRequest)]
              (snd (getStatus 3 (handleIntent 1 intentA (new_AegisRelayer 2 0 half)))))
           (fst (getStatus 3 (handleIntent 1 intentA (new_AegisRelayer 2 0 half))))) = 0"
proof -
  have r: "allocated (handleIntent 1 intentA (new_AegisRelayer 2 0 half))"
    "pool (handleIntent 1 intentA (new_AegisRelayer 2 0 half)) = [intentA]"
    "status (state (handleIntent 1 intentA (new_AegisRelayer 2 0 half))) = POOLING"
    "totalIntentsProcessed (state (handleIntent 1 intentA (new_AegisRelayer 2 0 half))) = 0"
    by (simp_all add: handleIntent_def syncState_def pool_def new_AegisRelayer_def Let_def
        allocated_def)
  show ?thesis
    using r getStatus_point_in_time [OF r(1), of 3 plainLib
        "[(4, IntentRegistered intentB), (5, Resumes 0 confirming), (6, NewBlock (Some 7)),
          (7, StatusRequest)]"]
    by (simp add: contents_def)
qed

end
